theory Spec2Isabelle
  imports Complex_Main
begin

section \<open>The WeChat article workflow (services/weixin-article.workflow.ts)\<close>

text \<open>
  The workflow class \<open>WeixinWorkflow\<close> drives one run of the pipeline in \<open>process()\<close>:
  it asks the feed for candidates, and for each candidate scrapes, summarizes, generates a
  cover, renders and publishes. Its collaborators (scraper, summarizer, image generator,
  publisher, renderer, feed, balance check) are request/response wrappers whose answers
  the workflow cannot predict: they are the fields of a record \<open>world\<close>. Every answer is
  either a value or a raised error (\<open>Inl\<close>). What the workflow does to the outside is kept
  in a trace of events: the collaborator calls it makes and the notifications it sends.
\<close>

subsection \<open>Errors\<close>

text \<open>
  The errors \<open>process()\<close> throws itself (lines 124, 160, 173 and 314), the TypeError of
  reading a property of \<open>undefined\<close>, and whatever a collaborator raises, with its message.
\<close>

datatype error =
    ApiUrlNotConfigured
  | FeedEmpty
  | ScraperNotFound
  | CoverFailed
  | TypeError
  | Thrown string

subsection \<open>Data\<close>

text \<open>An element of the feed's \<open>data\<close> array (lines 132-140).\<close>

record feed_item =
  item_author :: string
  item_cover :: string
  item_id :: string
  item_mobileUrl :: string
  item_timestamp :: int
  item_title :: string
  item_url :: string

text \<open>
  A string-valued property of a JavaScript object may be missing (\<open>undefined\<close>): \<open>None\<close>.
  The operator \<open>a || b\<close> yields \<open>b\<close> when \<open>a\<close> is falsy: \<open>undefined\<close> or the empty
  string. An array is never falsy, only its absence is.
\<close>

type_synonym js_string = "string option"

fun falsy :: "js_string \<Rightarrow> bool" where
  "falsy None = True"
| "falsy (Some s) = (s = [])"

definition js_or :: "js_string \<Rightarrow> string \<Rightarrow> js_string" where
  "js_or a b = (if falsy a then Some b else a)"

definition js_or_list :: "'a list option \<Rightarrow> 'a list \<Rightarrow> 'a list option" where
  "js_or_list a b = (case a of None \<Rightarrow> Some b | Some xs \<Rightarrow> Some xs)"

record metadata =
  md_keywords :: "string list option"
  md_other :: "(string \<times> string) list"

text \<open>\<open>ScrapedContent\<close>, as \<open>process()\<close> and \<open>processContent()\<close> read and write it.\<close>

record scraped_content =
  sc_id :: string
  sc_title :: js_string
  sc_content :: js_string
  sc_url :: string
  sc_publishDate :: string
  sc_score :: "real option"
  sc_metadata :: metadata

text \<open>What the summarizer returns (lines 86-90).\<close>

record summary =
  sum_title :: js_string
  sum_content :: js_string
  sum_score :: "real option"
  sum_keywords :: "string list option"

text \<open>\<open>WeixinTemplate\<close>, built at lines 200-208.\<close>

record article =
  art_id :: string
  art_title :: js_string
  art_content :: js_string
  art_url :: string
  art_publishDate :: string
  art_metadata :: metadata
  art_keywords :: "string list option"

record publish_result =
  status :: string
  publishId :: string

text \<open>The result of \<open>getCronSources()\<close>, as far as line 123 and 128 look into it.\<close>

record source =
  src_identifier :: string

record source_group =
  api :: "source list option"

record cron_sources =
  cfg_All :: "source_group option"

text \<open>The two placeholders of lines 98 and 99, as UTF-8 bytes.\<close>

definition no_title :: string where
  "no_title = [CHR 0xE6, CHR 0x97, CHR 0xA0, CHR 0xE6, CHR 0xA0, CHR 0x87,
               CHR 0xE9, CHR 0xA2, CHR 0x98]"

definition content_failed :: string where
  "content_failed = [CHR 0xE5, CHR 0x86, CHR 0x85, CHR 0xE5, CHR 0xAE, CHR 0xB9,
                     CHR 0xE5, CHR 0xA4, CHR 0x84, CHR 0xE7, CHR 0x90, CHR 0x86,
                     CHR 0xE5, CHR 0xA4, CHR 0xB1, CHR 0xE8, CHR 0xB4, CHR 0xA5]"

subsection \<open>The collaborators\<close>

text \<open>
  The first argument of a per-item collaborator is the position of the candidate in the
  batch: a backend may answer two calls with equal arguments differently.
  \<open>summarize\<close> receives \<open>JSON.stringify(content)\<close>, here the content itself.
  \<open>generateImage\<close> receives the title that line 305 puts into its fixed prompt (the size
  is the constant "1440*768"); its answer is the task id, an error also when the answer
  has no \<open>output\<close>. \<open>waitForCompletion\<close> answers \<open>results?.[0]?.url\<close>.
\<close>

record world =
  getCNYBalance :: "error + real"
  getCronSources :: "error + cron_sources"
  axios_get :: "string \<Rightarrow> error + feed_item list option"
  scrape :: "nat \<Rightarrow> string \<Rightarrow> error + scraped_content list"
  summarize :: "nat \<Rightarrow> scraped_content \<Rightarrow> error + summary"
  generateImage :: "nat \<Rightarrow> js_string \<Rightarrow> error + string"
  waitForCompletion :: "nat \<Rightarrow> string \<Rightarrow> error + js_string"
  uploadImage :: "nat \<Rightarrow> string \<Rightarrow> error + string"
  render :: "article list \<Rightarrow> error + string"
  publish :: "nat \<Rightarrow> string \<Rightarrow> js_string \<Rightarrow> js_string \<Rightarrow> string \<Rightarrow> error + publish_result"

text \<open>The scraper table the constructor fills (lines 41-43); nothing else writes it.\<close>

definition scraper_keys :: "string list" where
  "scraper_keys = [''fireCrawl'', ''twitter'']"

subsection \<open>Events: collaborator calls and notifications\<close>

datatype call =
    ScrapeCall string
  | SummarizeCall scraped_content
  | GenerateImageCall js_string
  | WaitForCompletionCall string
  | UploadImageCall string
  | RenderCall "article list"
  | PublishCall string js_string js_string string

datatype level = Info | Warning | Error | Success

text \<open>
  The titles and bodies the notifier is called with, one constructor per literal of the
  source: line 107 (\<open>WorkflowStart\<close>, \<open>StartBody\<close>), 114 (\<open>DeepSeek\<close>, \<open>LowBalance\<close>),
  150 (\<open>ApiRequestFailed\<close>), 159 (\<open>DataSourceError\<close>), 94-97 and 238-241
  (\<open>ContentFailed\<close>; \<open>KeptOriginal id\<close> and \<open>ItemError url error\<close>), 253
  (\<open>WorkflowTerminated\<close>, \<open>NoContentProcessed\<close>), 286 (\<open>WorkflowPartial\<close>), 288
  (\<open>WorkflowDone\<close>) and 296 (\<open>WorkflowFailed\<close>). \<open>Message e\<close> is the message of the error
  \<open>e\<close>; \<open>Summary\<close> carries the six numbers of the report of lines 270-276.
\<close>

datatype notice_title =
    WorkflowStart
  | DeepSeek
  | ApiRequestFailed
  | DataSourceError
  | ContentFailed
  | WorkflowTerminated
  | WorkflowPartial
  | WorkflowDone
  | WorkflowFailed

datatype notice_body =
    StartBody
  | LowBalance
  | Message error
  | KeptOriginal string
  | ItemError string error
  | NoContentProcessed
  | Summary nat nat nat nat nat nat

datatype event =
    Call nat call
  | Notify level notice_title notice_body

subsection \<open>State\<close>

text \<open>The counters of lines 34-38: a field of the instance, initialised when it is built.\<close>

record stats =
  success :: nat
  failed :: nat
  contents :: nat

definition new_stats :: stats where
  "new_stats = \<lparr>success = 0, failed = 0, contents = 0\<rparr>"

record run_state =
  stats :: stats
  trace :: "event list"

text \<open>Inside the loop, the locals of lines 175 and 176 are state too.\<close>

record loop_state = run_state +
  publishResults :: "publish_result list"
  processedCount :: nat

definition new_workflow :: run_state where
  "new_workflow = \<lparr>stats = new_stats, trace = []\<rparr>"

text \<open>
  Modelled from the spec: the notifier (\<open>BarkNotifier\<close>, not among the sources) "must never
  raise (failures are internally absorbed)". A notification is an event appended to the
  trace and nothing else.
\<close>

definition notify :: "level \<Rightarrow> notice_title \<Rightarrow> notice_body \<Rightarrow> 'a run_state_scheme \<Rightarrow> 'a run_state_scheme" where
  "notify l t b s = s\<lparr>trace := trace s @ [Notify l t b]\<rparr>"

definition invoke :: "nat \<Rightarrow> call \<Rightarrow> 'a run_state_scheme \<Rightarrow> 'a run_state_scheme" where
  "invoke i c s = s\<lparr>trace := trace s @ [Call i c]\<rparr>"

definition inc_failed :: "'a run_state_scheme \<Rightarrow> 'a run_state_scheme" where
  "inc_failed s = s\<lparr>stats := (stats s)\<lparr>failed := Suc (failed (stats s))\<rparr>\<rparr>"

definition inc_success :: "'a run_state_scheme \<Rightarrow> 'a run_state_scheme" where
  "inc_success s = s\<lparr>stats := (stats s)\<lparr>success := Suc (success (stats s))\<rparr>\<rparr>"

definition inc_contents :: "'a run_state_scheme \<Rightarrow> 'a run_state_scheme" where
  "inc_contents s = s\<lparr>stats := (stats s)\<lparr>contents := Suc (contents (stats s))\<rparr>\<rparr>"

definition inc_processed :: "loop_state \<Rightarrow> loop_state" where
  "inc_processed s = s\<lparr>processedCount := Suc (processedCount s)\<rparr>"

subsection \<open>processContent (lines 84-102)\<close>

text \<open>
  The summarizer's answer overwrites title, content, score and keywords; when it raises, a
  warning is sent and the three \<open>||\<close> of lines 98-100 fill what is missing. The function
  returns the content it has mutated; it has no path that raises.
\<close>

definition processContent :: "world \<Rightarrow> nat \<Rightarrow> scraped_content \<Rightarrow> loop_state \<Rightarrow> scraped_content \<times> loop_state" where
  "processContent w i content s =
     (let s1 = invoke i (SummarizeCall content) s in
      case summarize w i content of
        Inr summ \<Rightarrow>
          (content\<lparr>sc_title := sum_title summ,
                    sc_content := sum_content summ,
                    sc_score := sum_score summ,
                    sc_metadata := (sc_metadata content)\<lparr>md_keywords := sum_keywords summ\<rparr>\<rparr>,
           s1)
      | Inl e \<Rightarrow>
          (content\<lparr>sc_title := js_or (sc_title content) no_title,
                    sc_content := js_or (sc_content content) content_failed,
                    sc_metadata := (sc_metadata content)
                       \<lparr>md_keywords := js_or_list (md_keywords (sc_metadata content)) []\<rparr>\<rparr>,
           notify Warning ContentFailed (KeptOriginal (sc_id content)) s1))"

subsection \<open>generateAndUploadCover (lines 301-324)\<close>

definition generateAndUploadCover :: "world \<Rightarrow> nat \<Rightarrow> js_string \<Rightarrow> loop_state \<Rightarrow> (error + string) \<times> loop_state" where
  "generateAndUploadCover w i title s =
     (let s1 = invoke i (GenerateImageCall title) s in
      case generateImage w i title of
        Inl e \<Rightarrow> (Inl e, s1)
      | Inr taskId \<Rightarrow>
          (let s2 = invoke i (WaitForCompletionCall taskId) s1 in
           case waitForCompletion w i taskId of
             Inl e \<Rightarrow> (Inl e, s2)
           | Inr None \<Rightarrow> (Inl CoverFailed, s2)
           | Inr (Some imageUrl) \<Rightarrow>
               if imageUrl = [] then (Inl CoverFailed, s2)
               else
                 (let s3 = invoke i (UploadImageCall imageUrl) s2 in
                  case uploadImage w i imageUrl of
                    Inl e \<Rightarrow> (Inl e, s3)
                  | Inr mediaId \<Rightarrow> (Inr mediaId, s3))))"

subsection \<open>The loop of process (lines 179-245)\<close>

text \<open>
  How the \<open>try\<close> block of one iteration ends: it runs to its end, it leaves by the
  \<open>continue\<close> of line 189, or it throws.
\<close>

datatype completion = Normal | Continue | Throw error

definition to_article :: "scraped_content \<Rightarrow> article" where
  "to_article content =
     \<lparr>art_id = sc_id content,
      art_title = sc_title content,
      art_content = sc_content content,
      art_url = sc_url content,
      art_publishDate = sc_publishDate content,
      art_metadata = sc_metadata content,
      art_keywords = md_keywords (sc_metadata content)\<rparr>"

text \<open>The \<open>try\<close> block, lines 181-233.\<close>

definition item_try :: "world \<Rightarrow> nat \<Rightarrow> feed_item \<Rightarrow> loop_state \<Rightarrow> completion \<times> loop_state" where
  "item_try w i item s =
     (let s1 = invoke i (ScrapeCall (item_url item)) s in
      case scrape w i (item_url item) of
        Inl e \<Rightarrow> (Throw e, s1)
      | Inr [] \<Rightarrow> (Continue, inc_processed (inc_failed s1))
      | Inr (c0 # _) \<Rightarrow>
          (case processContent w i c0 s1 of (content, s2) \<Rightarrow>
             (let a = to_article content in
              case generateAndUploadCover w i (art_title a) s2 of
                (Inl e, s3) \<Rightarrow> (Throw e, s3)
              | (Inr mediaId, s3) \<Rightarrow>
                  (let s4 = invoke i (RenderCall [a]) s3 in
                   case render w [a] of
                     Inl e \<Rightarrow> (Throw e, s4)
                   | Inr singleArticleTemplate \<Rightarrow>
                       (let s5 = invoke i (PublishCall singleArticleTemplate (art_title a) (art_title a) mediaId) s4 in
                        case publish w i singleArticleTemplate (art_title a) (art_title a) mediaId of
                          Inl e \<Rightarrow> (Throw e, s5)
                        | Inr publishResult \<Rightarrow>
                            (Normal,
                             inc_contents (inc_success
                               (s5\<lparr>publishResults := publishResults s5 @ [publishResult]\<rparr>))))))))"

text \<open>One iteration: the \<open>try\<close> block, the \<open>catch\<close> of lines 234-242 and line 244.\<close>

definition item_step :: "world \<Rightarrow> nat \<Rightarrow> feed_item \<Rightarrow> loop_state \<Rightarrow> loop_state" where
  "item_step w i item s =
     (case item_try w i item s of
        (Continue, s') \<Rightarrow> s'
      | (Normal, s') \<Rightarrow> inc_processed s'
      | (Throw e, s') \<Rightarrow>
          inc_processed (notify Warning ContentFailed (ItemError (item_url item) e) (inc_failed s')))"

fun process_items :: "world \<Rightarrow> nat \<Rightarrow> feed_item list \<Rightarrow> loop_state \<Rightarrow> loop_state" where
  "process_items w i [] s = s"
| "process_items w i (item # items) s = process_items w (Suc i) items (item_step w i item s)"

subsection \<open>process (lines 104-299)\<close>

text \<open>
  Lines 106-173: the start notification, the balance check, the feed request, the cap of
  line 154 (\<open>splice(0,5)\<close> removes and returns the first five elements) and the checks
  before the loop. The result is the batch the loop runs over.
\<close>

definition process_prepare :: "world \<Rightarrow> run_state \<Rightarrow> (error + feed_item list) \<times> run_state" where
  "process_prepare w s =
     (let s1 = notify Info WorkflowStart StartBody s in
      case getCNYBalance w of
        Inl e \<Rightarrow> (Inl e, s1)
      | Inr deepSeekBalance \<Rightarrow>
          (let s2 = (if deepSeekBalance < 1 then notify Warning DeepSeek LowBalance s1 else s1) in
           case getCronSources w of
             Inl e \<Rightarrow> (Inl e, s2)
           | Inr sourceConfigs \<Rightarrow>
               (case cfg_All sourceConfigs of
                  None \<Rightarrow> (Inl ApiUrlNotConfigured, s2)
                | Some grp \<Rightarrow>
                    (case api grp of
                       None \<Rightarrow> (Inl ApiUrlNotConfigured, s2)
                     | Some [] \<Rightarrow> (Inl ApiUrlNotConfigured, s2)
                     | Some (src # _) \<Rightarrow>
                         (case axios_get w (src_identifier src) of
                            Inl e \<Rightarrow> (Inl e, notify Error ApiRequestFailed (Message e) s2)
                          | Inr None \<Rightarrow>
                              (Inl TypeError, notify Error ApiRequestFailed (Message TypeError) s2)
                          | Inr (Some d) \<Rightarrow>
                              (let data = take 5 d in
                               if data = [] then
                                 (Inl FeedEmpty, notify Error DataSourceError (Message FeedEmpty) s2)
                               else if ''fireCrawl'' \<notin> set scraper_keys then
                                 (Inl ScraperNotFound, s2)
                               else (Inr data, s2)))))))"

definition begin_loop :: "run_state \<Rightarrow> loop_state" where
  "begin_loop s = \<lparr>stats = stats s, trace = trace s, publishResults = [], processedCount = 0\<rparr>"

definition end_loop :: "loop_state \<Rightarrow> run_state" where
  "end_loop s = \<lparr>stats = stats s, trace = trace s\<rparr>"

definition published_ok :: "publish_result \<Rightarrow> bool" where
  "published_ok r = (status r = ''published'' \<or> status r = ''draft'')"

text \<open>Lines 247-292: the zero check and the report with its terminal notification.\<close>

definition process_report :: "feed_item list \<Rightarrow> loop_state \<Rightarrow> run_state" where
  "process_report data s =
     (if contents (stats s) = 0 then
        notify Error WorkflowTerminated NoContentProcessed (end_loop s)
      else
        (let successCount = length (filter published_ok (publishResults s));
             failedCount = length (publishResults s) - successCount;
             summary = Summary (length data) (success (stats s)) (failed (stats s))
                         (contents (stats s)) successCount failedCount
         in if failed (stats s) > 0 \<or> failedCount > 0
            then notify Warning WorkflowPartial summary (end_loop s)
            else notify Success WorkflowDone summary (end_loop s)))"

text \<open>The \<open>try\<close> block of \<open>process\<close>, lines 105-292.\<close>

definition process_try :: "world \<Rightarrow> run_state \<Rightarrow> (error + unit) \<times> run_state" where
  "process_try w s =
     (case process_prepare w s of
        (Inl e, s1) \<Rightarrow> (Inl e, s1)
      | (Inr data, s1) \<Rightarrow>
          (Inr (), process_report data (process_items w 0 data (begin_loop s1))))"

text \<open>\<open>process\<close>: the \<open>catch\<close> of lines 293-298 notifies and throws the error again.\<close>

definition process :: "world \<Rightarrow> run_state \<Rightarrow> (error + unit) \<times> run_state" where
  "process w s =
     (case process_try w s of
        (Inl e, s1) \<Rightarrow> (Inl e, notify Error WorkflowFailed (Message e) s1)
      | (Inr u, s1) \<Rightarrow> (Inr u, s1))"

subsection \<open>The scheduler (startCronJobs)\<close>

text \<open>
  \<open>initializeWorkflows\<close> builds one instance per weekday, once. Every tick of the cron
  job (every ten minutes between 7 and 23 o'clock) takes the instance of the day out of
  the table, refreshes it and calls \<open>process\<close> on it; an error of either is logged and
  dropped. The instance stays in the table, so the next tick of the same day runs on the
  instance the previous one left. \<open>refreshed\<close> is the outcome of \<open>workflow.refresh()\<close>.
\<close>

type_synonym workflow_map = "nat \<rightharpoonup> run_state"

definition initializeWorkflows :: workflow_map where
  "initializeWorkflows =
     [1 \<mapsto> new_workflow, 2 \<mapsto> new_workflow, 3 \<mapsto> new_workflow, 4 \<mapsto> new_workflow,
      5 \<mapsto> new_workflow, 6 \<mapsto> new_workflow, 7 \<mapsto> new_workflow]"

definition adjustedDay :: "nat \<Rightarrow> nat" where
  "adjustedDay dayOfWeek = (if dayOfWeek = 0 then 7 else dayOfWeek)"

definition cron_tick :: "error + unit \<Rightarrow> world \<Rightarrow> nat \<Rightarrow> workflow_map \<Rightarrow> workflow_map" where
  "cron_tick refreshed w dayOfWeek workflowMap =
     (case workflowMap (adjustedDay dayOfWeek) of
        None \<Rightarrow> workflowMap
      | Some workflow \<Rightarrow>
          (case refreshed of
             Inl e \<Rightarrow> workflowMap
           | Inr u \<Rightarrow> workflowMap(adjustedDay dayOfWeek \<mapsto> snd (process w workflow))))"

subsection \<open>Reading a trace\<close>

text \<open>
  The collaborator calls and the notifications of a trace, the scrape calls among the
  calls, and the results the publisher gave to the publish calls among them.
\<close>

fun calls_of :: "event list \<Rightarrow> (nat \<times> call) list" where
  "calls_of [] = []"
| "calls_of (Call i c # es) = (i, c) # calls_of es"
| "calls_of (Notify l t b # es) = calls_of es"

fun notes_of :: "event list \<Rightarrow> (level \<times> notice_title \<times> notice_body) list" where
  "notes_of [] = []"
| "notes_of (Call i c # es) = notes_of es"
| "notes_of (Notify l t b # es) = (l, t, b) # notes_of es"

fun scrape_urls :: "(nat \<times> call) list \<Rightarrow> (nat \<times> string) list" where
  "scrape_urls [] = []"
| "scrape_urls ((i, ScrapeCall u) # cs) = (i, u) # scrape_urls cs"
| "scrape_urls (_ # cs) = scrape_urls cs"

fun published_in :: "world \<Rightarrow> (nat \<times> call) list \<Rightarrow> publish_result list" where
  "published_in w [] = []"
| "published_in w ((i, PublishCall t a b m) # cs) =
     (case publish w i t a b m of Inr r \<Rightarrow> r # published_in w cs | Inl e \<Rightarrow> published_in w cs)"
| "published_in w (_ # cs) = published_in w cs"

definition events_since :: "'a run_state_scheme \<Rightarrow> 'b run_state_scheme \<Rightarrow> event list" where
  "events_since s s' = drop (length (trace s)) (trace s')"

subsection \<open>Stages\<close>

text \<open>
  The stages of one candidate as the specification names them: scrape, summarize, and
  render-and-publish (which includes the cover). A stage invocation is a candidate
  together with a stage that at least one call of the trace belongs to.
\<close>

datatype stage = ScrapeOne | SummarizeOne | RenderAndPublishOne

fun stage_of :: "call \<Rightarrow> stage" where
  "stage_of (ScrapeCall u) = ScrapeOne"
| "stage_of (SummarizeCall c) = SummarizeOne"
| "stage_of (GenerateImageCall t) = RenderAndPublishOne"
| "stage_of (WaitForCompletionCall t) = RenderAndPublishOne"
| "stage_of (UploadImageCall u) = RenderAndPublishOne"
| "stage_of (RenderCall a) = RenderAndPublishOne"
| "stage_of (PublishCall t a b m) = RenderAndPublishOne"

definition stage_invocations :: "event list \<Rightarrow> (nat \<times> stage) list" where
  "stage_invocations tr = remdups (map (\<lambda>(i, c). (i, stage_of c)) (calls_of tr))"

subsection \<open>Example worlds\<close>

text \<open>
  A feed answering \<open>d\<close> and backends that always succeed; the other worlds are record
  updates of it: a scraper that raises for the first candidate, a scraper that finds
  nothing, a summarizer that raises, a scraper that finds two contents, a publisher that
  answers with the status "failed", and a cover generation, a renderer and a publisher
  that raise.
\<close>

definition demo_item :: "string \<Rightarrow> feed_item" where
  "demo_item u = \<lparr>item_author = ''author'', item_cover = ''cover'', item_id = ''id'',
     item_mobileUrl = u, item_timestamp = 0, item_title = ''Feed title'', item_url = u\<rparr>"

definition demo_content :: scraped_content where
  "demo_content = \<lparr>sc_id = ''c1'', sc_title = Some ''Raw title'', sc_content = Some ''Raw body'',
     sc_url = ''u'', sc_publishDate = ''2025-01-01'', sc_score = None,
     sc_metadata = \<lparr>md_keywords = None, md_other = []\<rparr>\<rparr>"

definition demo_summary :: summary where
  "demo_summary = \<lparr>sum_title = Some ''New title'', sum_content = Some ''New body'',
     sum_score = Some 1, sum_keywords = Some [''k'']\<rparr>"

definition demo_world :: "feed_item list \<Rightarrow> world" where
  "demo_world d =
     \<lparr>getCNYBalance = Inr 10,
      getCronSources = Inr \<lparr>cfg_All = Some \<lparr>api = Some [\<lparr>src_identifier = ''feed''\<rparr>]\<rparr>\<rparr>,
      axios_get = (\<lambda>u. Inr (Some d)),
      scrape = (\<lambda>i u. Inr [demo_content]),
      summarize = (\<lambda>i c. Inr demo_summary),
      generateImage = (\<lambda>i t. Inr ''task''),
      waitForCompletion = (\<lambda>i t. Inr (Some ''img'')),
      uploadImage = (\<lambda>i u. Inr ''media''),
      render = (\<lambda>a. Inr ''html''),
      publish = (\<lambda>i t a b m. Inr \<lparr>status = ''published'', publishId = ''p''\<rparr>)\<rparr>"

definition boom :: error where
  "boom = Thrown ''boom''"

definition failing_first :: world where
  "failing_first = (demo_world [demo_item ''a'', demo_item ''b''])
      \<lparr>scrape := \<lambda>i u. if i = 0 then Inl boom else Inr [demo_content]\<rparr>"

definition nothing_scraped :: world where
  "nothing_scraped = (demo_world [demo_item ''a''])\<lparr>scrape := \<lambda>i u. Inr []\<rparr>"

definition summarizer_down :: world where
  "summarizer_down = (demo_world [demo_item ''a''])\<lparr>summarize := \<lambda>i c. Inl boom\<rparr>"

definition second_content :: scraped_content where
  "second_content = demo_content\<lparr>sc_id := ''c2'', sc_title := Some ''Second''\<rparr>"

definition two_contents :: world where
  "two_contents = (demo_world [demo_item ''a''])\<lparr>scrape := \<lambda>i u. Inr [demo_content, second_content]\<rparr>"





definition seven_items :: "feed_item list" where
  "seven_items = map demo_item [''a'', ''b'', ''c'', ''d'', ''e'', ''f'', ''g'']"

section \<open>Properties\<close>

subsection \<open>What one iteration and the loop do to the state\<close>

lemmas state_defs = notify_def invoke_def inc_failed_def inc_success_def inc_contents_def
  inc_processed_def

lemma calls_of_append: "calls_of (xs @ ys) = calls_of xs @ calls_of ys"
  by (induction xs rule: calls_of.induct) simp_all

lemma notes_of_append: "notes_of (xs @ ys) = notes_of xs @ notes_of ys"
  by (induction xs rule: notes_of.induct) simp_all

lemma scrape_urls_append: "scrape_urls (xs @ ys) = scrape_urls xs @ scrape_urls ys"
  by (induction xs rule: scrape_urls.induct) simp_all

lemma published_in_append: "published_in w (xs @ ys) = published_in w xs @ published_in w ys"
  by (induction w xs rule: published_in.induct) (simp_all split: sum.splits)

lemma processContent_frame:
  assumes "processContent w i c s = (c', s')"
  shows "stats s' = stats s" "publishResults s' = publishResults s"
    "processedCount s' = processedCount s"
    "\<exists>ns. trace s' = trace s @ Call i (SummarizeCall c) # ns \<and> calls_of ns = []"
  using assms by (auto simp: processContent_def state_defs Let_def split: sum.splits)

lemma cover_frame:
  assumes "generateAndUploadCover w i t s = (r, s')"
  shows "stats s' = stats s" "publishResults s' = publishResults s"
    "processedCount s' = processedCount s"
    "\<exists>evs. trace s' = trace s @ evs \<and> fst ` set (calls_of evs) \<subseteq> {i}
        \<and> scrape_urls (calls_of evs) = [] \<and> published_in w (calls_of evs) = []"
  using assms
  by (auto simp: generateAndUploadCover_def state_defs Let_def
      split: sum.splits option.splits if_splits)

lemma item_step_trace:
  "\<exists>evs. trace (item_step w i item s) = trace s @ evs
     \<and> scrape_urls (calls_of evs) = [(i, item_url item)]
     \<and> fst ` set (calls_of evs) \<subseteq> {i}
     \<and> publishResults (item_step w i item s) = publishResults s @ published_in w (calls_of evs)"
proof (cases "scrape w i (item_url item)")
  case (Inl e)
  then show ?thesis
    by (simp add: item_step_def item_try_def state_defs Let_def)
next
  case (Inr cs)
  show ?thesis
  proof (cases cs)
    case Nil
    with Inr show ?thesis
      by (simp add: item_step_def item_try_def state_defs Let_def)
  next
    case (Cons c0 rest)
    let ?s1 = "invoke i (ScrapeCall (item_url item)) s"
    obtain content s2 where pc: "processContent w i c0 ?s1 = (content, s2)"
      by (cases "processContent w i c0 ?s1")
    obtain r s3 where gc: "generateAndUploadCover w i (art_title (to_article content)) s2 = (r, s3)"
      by (cases "generateAndUploadCover w i (art_title (to_article content)) s2")
    from processContent_frame[OF pc] obtain ns where
      p: "publishResults s2 = publishResults ?s1" "trace s2 = trace ?s1 @ Call i (SummarizeCall c0) # ns"
         "calls_of ns = []" by blast
    from cover_frame[OF gc] obtain evs where
      g: "publishResults s3 = publishResults s2" "trace s3 = trace s2 @ evs"
         "fst ` set (calls_of evs) \<subseteq> {i}" "scrape_urls (calls_of evs) = []"
         "published_in w (calls_of evs) = []" by blast
    show ?thesis
      using Inr Cons pc gc p g
      by (cases r)
        (auto simp: item_step_def item_try_def state_defs Let_def calls_of_append
          scrape_urls_append published_in_append split: sum.splits)
  qed
qed

lemma item_step_counts:
  "success (stats (item_step w i item s)) + failed (stats (item_step w i item s))
     = Suc (success (stats s) + failed (stats s))"
  "processedCount (item_step w i item s) = Suc (processedCount s)"
proof -
  let ?s1 = "invoke i (ScrapeCall (item_url item)) s"
  have "success (stats (item_step w i item s)) + failed (stats (item_step w i item s))
     = Suc (success (stats s) + failed (stats s)) \<and> processedCount (item_step w i item s) = Suc (processedCount s)"
  proof (cases "scrape w i (item_url item)")
    case (Inl e)
    then show ?thesis by (simp add: item_step_def item_try_def state_defs Let_def)
  next
    case (Inr cs)
    show ?thesis
    proof (cases cs)
      case Nil
      with Inr show ?thesis by (simp add: item_step_def item_try_def state_defs Let_def)
    next
      case (Cons c0 rest)
      obtain content s2 where pc: "processContent w i c0 ?s1 = (content, s2)"
        by (cases "processContent w i c0 ?s1")
      obtain r s3 where gc: "generateAndUploadCover w i (art_title (to_article content)) s2 = (r, s3)"
        by (cases "generateAndUploadCover w i (art_title (to_article content)) s2")
      show ?thesis
        using Inr Cons pc gc processContent_frame(1-3)[OF pc] cover_frame(1-3)[OF gc]
        by (cases r)
          (auto simp: item_step_def item_try_def state_defs Let_def split: sum.splits)
    qed
  qed
  then show "success (stats (item_step w i item s)) + failed (stats (item_step w i item s))
     = Suc (success (stats s) + failed (stats s))"
    "processedCount (item_step w i item s) = Suc (processedCount s)" by simp_all
qed

lemma process_items_append:
  "process_items w i (xs @ ys) s = process_items w (i + length xs) ys (process_items w i xs s)"
  by (induction xs arbitrary: i s) simp_all

lemma process_items_counts:
  "success (stats (process_items w i items s)) + failed (stats (process_items w i items s))
     = success (stats s) + failed (stats s) + length items"
  "processedCount (process_items w i items s) = processedCount s + length items"
  by (induction items arbitrary: i s) (simp_all add: item_step_counts)

lemma sorted_single_value: "set xs \<subseteq> {a::nat} \<Longrightarrow> sorted xs"
  by (induction xs) auto

lemma process_items_trace:
  "\<exists>evs. trace (process_items w i items s) = trace s @ evs
     \<and> scrape_urls (calls_of evs) = zip [i..<i + length items] (map item_url items)
     \<and> sorted (map fst (calls_of evs))
     \<and> fst ` set (calls_of evs) \<subseteq> {i..<i + length items}
     \<and> publishResults (process_items w i items s) = publishResults s @ published_in w (calls_of evs)"
proof (induction items arbitrary: i s)
  case Nil
  show ?case by simp
next
  case (Cons item items)
  obtain e1 where 1: "trace (item_step w i item s) = trace s @ e1"
    "scrape_urls (calls_of e1) = [(i, item_url item)]" "fst ` set (calls_of e1) \<subseteq> {i}"
    "publishResults (item_step w i item s) = publishResults s @ published_in w (calls_of e1)"
    using item_step_trace by blast
  obtain e2 where 2: "trace (process_items w (Suc i) items (item_step w i item s)) = trace (item_step w i item s) @ e2"
    "scrape_urls (calls_of e2) = zip [Suc i..<Suc i + length items] (map item_url items)"
    "sorted (map fst (calls_of e2))" "fst ` set (calls_of e2) \<subseteq> {Suc i..<Suc i + length items}"
    "publishResults (process_items w (Suc i) items (item_step w i item s))
       = publishResults (item_step w i item s) @ published_in w (calls_of e2)"
    using Cons.IH by blast
  have s1: "sorted (map fst (calls_of e1))"
    using 1(3) by (intro sorted_single_value[of _ i]) simp
  have "sorted (map fst (calls_of (e1 @ e2)))"
    using s1 2(3) 1(3) 2(4) by (fastforce simp: calls_of_append sorted_append)
  moreover have u: "[i..<i + length (item # items)] = i # [Suc i..<Suc i + length items]"
    by (subst upt_conv_Cons) simp_all
  moreover have "scrape_urls (calls_of (e1 @ e2)) = zip [i..<i + length (item # items)] (map item_url (item # items))"
    using 1(2) 2(2)
    by (simp only: calls_of_append scrape_urls_append u list.map zip_Cons_Cons append_Cons append_Nil)
  moreover have "fst ` set (calls_of (e1 @ e2)) \<subseteq> {i..<i + length (item # items)}"
    using 1(3) 2(4) by (auto simp: calls_of_append)
  ultimately show ?case
    using 1 2 by (intro exI[of _ "e1 @ e2"]) (simp add: published_in_append calls_of_append)
qed

lemmas model_defs = process_def process_try_def process_prepare_def process_report_def
  begin_loop_def end_loop_def item_step_def item_try_def processContent_def
  generateAndUploadCover_def to_article_def scraper_keys_def published_ok_def
  js_or_def js_or_list_def state_defs Let_def

lemmas demo_defs = demo_world_def demo_item_def demo_content_def demo_summary_def
  new_workflow_def new_stats_def

lemma item_try_frame:
  assumes "item_try w i item s = (r, s')"
  shows "case r of
      Throw e \<Rightarrow> stats s' = stats s \<and> publishResults s' = publishResults s
                   \<and> processedCount s' = processedCount s
    | Continue \<Rightarrow> scrape w i (item_url item) = Inr []
                   \<and> s' = inc_processed (inc_failed (invoke i (ScrapeCall (item_url item)) s))
    | Normal \<Rightarrow> stats s' = (stats s)\<lparr>success := Suc (success (stats s)),
                                       contents := Suc (contents (stats s))\<rparr>
                 \<and> (\<exists>p. publishResults s' = publishResults s @ [p])
                 \<and> processedCount s' = processedCount s"
proof (cases "scrape w i (item_url item)")
  case (Inl e)
  with assms show ?thesis by (auto simp: item_try_def state_defs Let_def)
next
  case (Inr cs)
  show ?thesis
  proof (cases cs)
    case Nil
    with Inr assms show ?thesis by (auto simp: item_try_def Let_def)
  next
    case (Cons c0 rest)
    let ?s1 = "invoke i (ScrapeCall (item_url item)) s"
    obtain content s2 where pc: "processContent w i c0 ?s1 = (content, s2)"
      by (cases "processContent w i c0 ?s1")
    obtain g s3 where gc: "generateAndUploadCover w i (art_title (to_article content)) s2 = (g, s3)"
      by (cases "generateAndUploadCover w i (art_title (to_article content)) s2")
    show ?thesis
      using assms Inr Cons pc gc processContent_frame(1-3)[OF pc] cover_frame(1-3)[OF gc]
      by (cases g) (auto simp: item_try_def state_defs Let_def split: sum.splits)
  qed
qed

lemmas world_defs = nothing_scraped_def summarizer_down_def two_contents_def failing_first_def
  second_content_def boom_def

lemma item_step_contents:
  "contents (stats (item_step w i item s)) + length (publishResults s)
     = contents (stats s) + length (publishResults (item_step w i item s))"
proof -
  obtain r s' where t: "item_try w i item s = (r, s')" by (cases "item_try w i item s")
  from item_try_frame[OF t] t show ?thesis
    by (cases r) (auto simp: item_step_def state_defs)
qed

lemma process_items_contents:
  "contents (stats (process_items w i items s)) + length (publishResults s)
     = contents (stats s) + length (publishResults (process_items w i items s))"
proof (induction items arbitrary: i s)
  case Nil
  show ?case by simp
next
  case (Cons item items)
  from Cons.IH[of "Suc i" "item_step w i item s"] item_step_contents[of w i item s]
  show ?case by simp
qed

lemma events_since_append: "trace s' = trace s @ evs \<Longrightarrow> events_since s s' = evs"
  by (simp add: events_since_def)

lemma processContent_fst: "fst (processContent w i c s) = fst (processContent w i c s')"
  by (simp add: processContent_def Let_def split: sum.splits)

lemma cover_fst:
  "fst (generateAndUploadCover w i t s) = fst (generateAndUploadCover w i t s')"
  by (simp add: generateAndUploadCover_def Let_def split: sum.splits option.splits)


subsection \<open>The feed is read before the loop only\<close>

lemma processContent_axios:
  "processContent (w\<lparr>axios_get := f\<rparr>) i c s = processContent w i c s"
  by (simp add: processContent_def)

lemma cover_axios:
  "generateAndUploadCover (w\<lparr>axios_get := f\<rparr>) i t s = generateAndUploadCover w i t s"
  by (simp add: generateAndUploadCover_def Let_def split: sum.splits option.splits)

lemma item_try_axios: "item_try (w\<lparr>axios_get := f\<rparr>) i item s = item_try w i item s"
  by (simp add: item_try_def processContent_axios cover_axios Let_def
      split: sum.splits list.splits prod.splits)

lemma item_step_axios: "item_step (w\<lparr>axios_get := f\<rparr>) i item s = item_step w i item s"
  by (simp add: item_step_def item_try_axios)

lemma process_items_axios: "process_items (w\<lparr>axios_get := f\<rparr>) i items s = process_items w i items s"
  by (induction items arbitrary: i s) (simp_all add: item_step_axios)

subsection \<open>Before and after the loop\<close>

lemma process_prepare_frame:
  assumes "process_prepare w s = (r, s1)"
  shows "stats s1 = stats s" "\<exists>ns. trace s1 = trace s @ ns \<and> calls_of ns = []"
  using assms
  by (auto simp: process_prepare_def state_defs Let_def
      split: sum.splits option.splits list.splits if_splits)

lemma process_after_prepare:
  "process_prepare w s = (Inr data, s1) \<Longrightarrow>
     process w s = (Inr (), process_report data (process_items w 0 data (begin_loop s1)))"
  by (simp add: process_def process_try_def)

lemma process_prepare_fails:
  "process_prepare w s = (Inl e, s1) \<Longrightarrow>
     process w s = (Inl e, notify Error WorkflowFailed (Message e) s1)"
  by (simp add: process_def process_try_def)

lemma process_report_frame:
  "stats (process_report data L) = stats L"
  "\<exists>l t b. trace (process_report data L) = trace L @ [Notify l t b]"
  by (auto simp: process_report_def end_loop_def state_defs Let_def)

lemma process_prepare_feed:
  assumes "getCNYBalance w = Inr b" "getCronSources w = Inr cfg" "cfg_All cfg = Some grp"
    "api grp = Some (src # srcs)" "axios_get w (src_identifier src) = Inr (Some d)"
  shows "process_prepare w s =
     (let s1 = notify Info WorkflowStart StartBody s;
          s2 = (if b < 1 then notify Warning DeepSeek LowBalance s1 else s1)
      in if take 5 d = [] then (Inl FeedEmpty, notify Error DataSourceError (Message FeedEmpty) s2)
         else (Inr (take 5 d), s2))"
  using assms by (simp add: process_prepare_def scraper_keys_def Let_def)


subsection \<open>Errors that leave an iteration, and what an iteration publishes\<close>





lemma item_step_published:
  "publishResults (item_step w i item s) = publishResults s @
     (case scrape w i (item_url item) of
        Inl e \<Rightarrow> []
      | Inr [] \<Rightarrow> []
      | Inr (c # x) \<Rightarrow>
          (case fst (generateAndUploadCover w i (sc_title (fst (processContent w i c s0))) s0) of
             Inl e \<Rightarrow> []
           | Inr mediaId \<Rightarrow>
               (case render w [to_article (fst (processContent w i c s0))] of
                  Inl e \<Rightarrow> []
                | Inr tpl \<Rightarrow>
                    (case publish w i tpl (sc_title (fst (processContent w i c s0)))
                            (sc_title (fst (processContent w i c s0))) mediaId of
                       Inl e \<Rightarrow> []
                     | Inr r \<Rightarrow> [r]))))"
proof (cases "scrape w i (item_url item)")
  case (Inl e)
  then show ?thesis by (simp add: item_step_def item_try_def state_defs Let_def)
next
  case (Inr cs)
  show ?thesis
  proof (cases cs)
    case Nil
    with Inr show ?thesis by (simp add: item_step_def item_try_def state_defs Let_def)
  next
    case (Cons c0 rest)
    let ?s1 = "invoke i (ScrapeCall (item_url item)) s"
    obtain content s2 where pc: "processContent w i c0 ?s1 = (content, s2)"
      by (cases "processContent w i c0 ?s1")
    obtain g s3 where gc: "generateAndUploadCover w i (art_title (to_article content)) s2 = (g, s3)"
      by (cases "generateAndUploadCover w i (art_title (to_article content)) s2")
    have c: "fst (processContent w i c0 s0) = content"
      using pc processContent_fst[of w i c0 s0 ?s1] by simp
    have t: "art_title (to_article content) = sc_title content" by (simp add: to_article_def)
    have g: "fst (generateAndUploadCover w i (sc_title content) s0) = g"
      using gc cover_fst[of w i "sc_title content" s0 s2] by (simp add: t)
    show ?thesis
      using Inr Cons pc gc c g t processContent_frame(2)[OF pc] cover_frame(2)[OF gc]
      by (cases g) (auto simp: item_step_def item_try_def state_defs Let_def split: sum.splits)
  qed
qed

lemma item_step_published_frame:
  "publishResults (item_step w i item s)
     = publishResults s @ publishResults (item_step w i item (begin_loop new_workflow))"
  using item_step_published[of w i item s s]
    item_step_published[of w i item "begin_loop new_workflow" s]
  by (simp add: begin_loop_def)

lemma process_items_published:
  "publishResults (process_items w i items s)
     = publishResults s @ concat (map (\<lambda>(j, it). publishResults (item_step w j it (begin_loop new_workflow)))
                                   (zip [i..<i + length items] items))"
proof (induction items arbitrary: i s)
  case Nil
  show ?case by simp
next
  case (Cons item items)
  have u: "[i..<i + length (item # items)] = i # [Suc i..<Suc i + length items]"
    by (subst upt_conv_Cons) simp_all
  show ?case
    using Cons.IH[of "Suc i" "item_step w i item s"] item_step_published_frame[of w i item s]
    by (simp only: u process_items.simps zip_Cons_Cons list.map concat.simps prod.case append_assoc)
qed

subsection \<open>C1: a failing candidate is isolated\<close>




subsection \<open>C2: no candidate processed\<close>

text \<open>
  Claim C2, as stated, has \<open>process\<close> throw when no candidate was fully processed. With
  one candidate whose scrape finds nothing, \<open>process\<close> sends the error notification and
  returns normally.
\<close>

theorem zero_processed_returns_counterexample:
  "process nothing_scraped new_workflow
     = (Inr (), \<lparr>stats = \<lparr>success = 0, failed = 1, contents = 0\<rparr>,
                 trace = [Notify Info WorkflowStart StartBody, Call 0 (ScrapeCall ''a''),
                          Notify Error WorkflowTerminated NoContentProcessed]\<rparr>)"
  by (simp add: world_defs model_defs demo_defs)

text \<open>
  Claim C2, amended. When the loop ends with the contents counter at zero, \<open>process\<close>
  sends the error notification "workflow terminated" as the only event after the loop,
  sends neither report nor terminal notification, and returns normally: no error reaches
  the caller.
\<close>

theorem zero_processed_returns_normally:
  assumes "process_prepare w s = (Inr data, s1)"
    and "L = process_items w 0 data (begin_loop s1)"
    and "contents (stats L) = 0"
  shows "process w s
     = (Inr (), \<lparr>stats = stats L,
                 trace = trace L @ [Notify Error WorkflowTerminated NoContentProcessed]\<rparr>)"
  using assms
  by (simp add: process_after_prepare process_report_def end_loop_def notify_def)

text \<open>
  Witness for C2: the scraper finds nothing for the only candidate.
\<close>

theorem zero_processed_returns_normally_witness:
  "process_prepare nothing_scraped new_workflow
     = (Inr [demo_item ''a''], notify Info WorkflowStart StartBody new_workflow)
   \<and> contents (stats (process_items nothing_scraped 0 [demo_item ''a'']
        (begin_loop (notify Info WorkflowStart StartBody new_workflow)))) = 0
   \<and> fst (process nothing_scraped new_workflow) = Inr ()"
proof -
  let ?s1 = "notify Info WorkflowStart StartBody new_workflow"
  have h1: "process_prepare nothing_scraped new_workflow = (Inr [demo_item ''a''], ?s1)"
    by (simp add: world_defs model_defs demo_defs)
  have h3: "contents (stats (process_items nothing_scraped 0 [demo_item ''a''] (begin_loop ?s1))) = 0"
    by (simp add: world_defs model_defs demo_defs)
  show ?thesis
    using h1 h3 zero_processed_returns_normally[OF h1 refl h3] by simp
qed

subsection \<open>C3: the counters across runs\<close>

text \<open>
  Claim C3 says the counters are zero at the start of every run. Nothing in \<open>process\<close>
  resets them, and the scheduler runs every tick of a weekday on the same instance. After
  a first tick that publishes one candidate, the second tick of that day starts its first
  stage with success = 1 and contents = 1; when the only candidate of that second run
  yields nothing, the zero check of line 250 does not fire and the run ends with the
  partial-failure report "1 succeeded, 1 failed, 1 content" although it processed nothing.
\<close>

theorem counters_carry_over_to_second_run:
  "cron_tick (Inr ()) (demo_world [demo_item ''a'']) 1 initializeWorkflows 1
     = Some (snd (process (demo_world [demo_item ''a'']) new_workflow))
   \<and> stats (snd (process (demo_world [demo_item ''a'']) new_workflow))
     = \<lparr>success = 1, failed = 0, contents = 1\<rparr>
   \<and> stats (snd (process_prepare nothing_scraped
        (snd (process (demo_world [demo_item ''a'']) new_workflow))))
     = \<lparr>success = 1, failed = 0, contents = 1\<rparr>
   \<and> map_option stats
        (cron_tick (Inr ()) nothing_scraped 1
           (cron_tick (Inr ()) (demo_world [demo_item ''a'']) 1 initializeWorkflows) 1)
     = Some \<lparr>success = 1, failed = 1, contents = 1\<rparr>
   \<and> notes_of (events_since (snd (process (demo_world [demo_item ''a'']) new_workflow))
        (snd (process nothing_scraped (snd (process (demo_world [demo_item ''a'']) new_workflow)))))
     = [(Info, WorkflowStart, StartBody), (Warning, WorkflowPartial, Summary 1 1 1 1 0 0)]"
proof -
  let ?first = "snd (process (demo_world [demo_item ''a'']) new_workflow)"
  have t1: "cron_tick (Inr ()) (demo_world [demo_item ''a'']) 1 initializeWorkflows
      = initializeWorkflows(1 \<mapsto> ?first)"
    by (simp add: cron_tick_def adjustedDay_def initializeWorkflows_def)
  have r1: "?first = \<lparr>stats = \<lparr>success = 1, failed = 0, contents = 1\<rparr>, trace = trace ?first\<rparr>"
    by (simp add: model_defs demo_defs)
  have r2: "stats (snd (process_prepare nothing_scraped ?first))
      = \<lparr>success = 1, failed = 0, contents = 1\<rparr>"
    by (simp add: world_defs model_defs demo_defs)
  have r3: "stats (snd (process nothing_scraped ?first)) = \<lparr>success = 1, failed = 1, contents = 1\<rparr>"
    by (simp add: world_defs model_defs demo_defs)
  have r4: "notes_of (events_since ?first (snd (process nothing_scraped ?first)))
      = [(Info, WorkflowStart, StartBody), (Warning, WorkflowPartial, Summary 1 1 1 1 0 0)]"
    by (simp add: world_defs model_defs demo_defs events_since_def)
  have t2: "map_option stats (cron_tick (Inr ()) nothing_scraped 1 (initializeWorkflows(1 \<mapsto> ?first)) 1)
      = Some \<lparr>success = 1, failed = 1, contents = 1\<rparr>"
    using r3 by (simp add: cron_tick_def adjustedDay_def)
  have s1: "stats ?first = \<lparr>success = 1, failed = 0, contents = 1\<rparr>"
    by (subst r1) simp
  from t1 t2 s1 r2 r4 show ?thesis by simp
qed

subsection \<open>C4: what the counters count\<close>

text \<open>
  Claim C4, as stated, equates success + failed with the number of stage invocations.
  One candidate that is scraped, summarized and published invokes three stages and adds
  one to the sum.
\<close>

theorem stats_sum_is_not_stage_count_counterexample:
  "success (stats (snd (process (demo_world [demo_item ''a'']) new_workflow)))
     + failed (stats (snd (process (demo_world [demo_item ''a'']) new_workflow))) = 1
   \<and> stage_invocations (trace (snd (process (demo_world [demo_item ''a'']) new_workflow)))
     = [(0, ScrapeOne), (0, SummarizeOne), (0, RenderAndPublishOne)]"
  by (simp add: model_defs demo_defs stage_invocations_def)

text \<open>
  Claim C4, amended. In a run that starts with success and failed at zero, after the
  first \<open>k\<close> candidates of the batch (the state \<open>P\<close>, from which the loop goes on with
  the remaining ones) success + failed equals the number of candidates whose iteration
  has ended, which is also \<open>processedCount\<close>, and never exceeds the size of the batch.
\<close>

theorem stats_sum_counts_items:
  assumes "success (stats s) = 0" and "failed (stats s) = 0"
    and "P = process_items w 0 (take k data) (begin_loop s)"
  shows "success (stats P) + failed (stats P) = min k (length data)
    \<and> processedCount P = min k (length data)
    \<and> success (stats P) + failed (stats P) \<le> length data
    \<and> process_items w 0 data (begin_loop s) = process_items w (min k (length data)) (drop k data) P"
proof -
  have 1: "success (stats P) + failed (stats P) = min k (length data)"
    using assms by (simp add: process_items_counts begin_loop_def min.commute)
  have 2: "processedCount P = min k (length data)"
    using assms by (simp add: process_items_counts begin_loop_def min.commute)
  have 3: "process_items w 0 data (begin_loop s) = process_items w (min k (length data)) (drop k data) P"
    using process_items_append[of w 0 "take k data" "drop k data" "begin_loop s"] assms(3)
    by (simp add: min.commute)
  from 1 2 3 show ?thesis by simp
qed

text \<open>
  Witness for C4: after the first of two candidates the sum is one.
\<close>

theorem stats_sum_counts_items_witness:
  "success (stats new_workflow) = 0 \<and> failed (stats new_workflow) = 0
   \<and> success (stats (process_items failing_first 0 (take 1 [demo_item ''a'', demo_item ''b''])
        (begin_loop new_workflow)))
     + failed (stats (process_items failing_first 0 (take 1 [demo_item ''a'', demo_item ''b''])
        (begin_loop new_workflow))) = 1"
proof -
  have h1: "success (stats new_workflow) = 0" and h2: "failed (stats new_workflow) = 0"
    by (simp_all add: demo_defs)
  show ?thesis
    using h1 h2 stats_sum_counts_items[OF h1 h2 refl, of failing_first 1 "[demo_item ''a'', demo_item ''b'']"]
    by simp
qed

subsection \<open>C5: the cap of five\<close>

text \<open>
  Claim C5. Whatever the feed answers, the candidates scraped in a run are exactly the
  first five elements of the answer (all of them when there are fewer), in feed order;
  success + failed grows by their number; and the whole run, its result, counters and
  trace, is the run on the answer cut to five elements: the candidates beyond the cap
  reach nothing.
\<close>

theorem batch_capped_at_five:
  assumes "getCNYBalance w = Inr b" and "getCronSources w = Inr cfg"
    and "cfg_All cfg = Some grp" and "api grp = Some (src # srcs)"
    and "axios_get w (src_identifier src) = Inr (Some d)"
  shows "scrape_urls (calls_of (events_since s (snd (process w s))))
      = zip [0..<length (take 5 d)] (map item_url (take 5 d))
    \<and> length (scrape_urls (calls_of (events_since s (snd (process w s))))) \<le> 5
    \<and> success (stats (snd (process w s))) + failed (stats (snd (process w s)))
      = success (stats s) + failed (stats s) + length (take 5 d)
    \<and> process w s = process (w\<lparr>axios_get := \<lambda>u. Inr (Some (take 5 d))\<rparr>) s"
proof -
  let ?s1 = "notify Info WorkflowStart StartBody s"
  let ?s2 = "if b < 1 then notify Warning DeepSeek LowBalance ?s1 else ?s1"
  let ?w' = "w\<lparr>axios_get := \<lambda>u. Inr (Some (take 5 d))\<rparr>"
  obtain ns where ns: "trace ?s2 = trace s @ ns" "calls_of ns = []" "stats ?s2 = stats s"
    by (cases "b < 1") (simp_all add: notify_def)
  have prep: "process_prepare w s =
      (if take 5 d = [] then (Inl FeedEmpty, notify Error DataSourceError (Message FeedEmpty) ?s2)
       else (Inr (take 5 d), ?s2))"
    using process_prepare_feed[OF assms, of s] by (simp add: Let_def)
  have prep': "process_prepare ?w' s = process_prepare w s"
    unfolding prep using assms process_prepare_feed[of ?w' b cfg grp src srcs "take 5 d" s]
    by (simp add: Let_def)
  have same: "process w s = process ?w' s"
    by (simp add: process_def process_try_def prep' process_items_axios
        split: prod.splits sum.splits)
  have urls_sum: "scrape_urls (calls_of (events_since s (snd (process w s))))
      = zip [0..<length (take 5 d)] (map item_url (take 5 d))
    \<and> success (stats (snd (process w s))) + failed (stats (snd (process w s)))
      = success (stats s) + failed (stats s) + length (take 5 d)"
  proof (cases "take 5 d = []")
    case True
    then have "process w s = (Inl FeedEmpty, notify Error WorkflowFailed (Message FeedEmpty)
        (notify Error DataSourceError (Message FeedEmpty) ?s2))"
      using prep by (simp add: process_prepare_fails)
    then show ?thesis
      using True ns
      by (simp add: events_since_def notify_def calls_of_append scrape_urls_append)
  next
    case False
    let ?L = "process_items w 0 (take 5 d) (begin_loop ?s2)"
    have p: "process w s = (Inr (), process_report (take 5 d) ?L)"
      using False prep by (simp add: process_after_prepare)
    obtain evs where evs: "trace ?L = trace (begin_loop ?s2) @ evs"
      "scrape_urls (calls_of evs) = zip [0..<0 + length (take 5 d)] (map item_url (take 5 d))"
      using process_items_trace[of w 0 "take 5 d" "begin_loop ?s2"] by blast
    obtain l t bd where rep: "trace (process_report (take 5 d) ?L) = trace ?L @ [Notify l t bd]"
      using process_report_frame(2) by blast
    have tr: "trace (snd (process w s)) = trace s @ (ns @ evs @ [Notify l t bd])"
      using p rep evs(1) ns(1) by (simp add: begin_loop_def)
    have 1: "scrape_urls (calls_of (events_since s (snd (process w s))))
      = zip [0..<length (take 5 d)] (map item_url (take 5 d))"
      using events_since_append[OF tr] evs(2) ns(2)
      by (simp add: calls_of_append scrape_urls_append)
    have 2: "success (stats (snd (process w s))) + failed (stats (snd (process w s)))
      = success (stats s) + failed (stats s) + length (take 5 d)"
      using p process_report_frame(1)[of "take 5 d" ?L]
        process_items_counts(1)[of w 0 "take 5 d" "begin_loop ?s2"] ns(3)
      by (simp add: begin_loop_def)
    from 1 2 show ?thesis by simp
  qed
  then have "length (scrape_urls (calls_of (events_since s (snd (process w s))))) \<le> 5"
    by simp
  with urls_sum same show ?thesis by simp
qed

text \<open>
  Witness for C5: of seven candidates the first five are scraped.
\<close>

theorem batch_capped_at_five_witness:
  "getCNYBalance (demo_world seven_items) = Inr 10
   \<and> axios_get (demo_world seven_items) ''feed'' = Inr (Some seven_items)
   \<and> scrape_urls (calls_of (events_since new_workflow
        (snd (process (demo_world seven_items) new_workflow))))
      = [(0, ''a''), (1, ''b''), (2, ''c''), (3, ''d''), (4, ''e'')]"
proof -
  let ?w = "demo_world seven_items"
  let ?cfg = "\<lparr>cfg_All = Some \<lparr>api = Some [\<lparr>src_identifier = ''feed''\<rparr>]\<rparr>\<rparr>"
  let ?grp = "\<lparr>api = Some [\<lparr>src_identifier = ''feed''\<rparr>]\<rparr>"
  let ?src = "\<lparr>src_identifier = ''feed''\<rparr>"
  have h1: "getCNYBalance ?w = Inr 10" by (simp add: demo_world_def)
  have h2: "getCronSources ?w = Inr ?cfg" by (simp add: demo_world_def)
  have h3: "cfg_All ?cfg = Some ?grp" by simp
  have h4: "api ?grp = Some (?src # [])" by simp
  have h5: "axios_get ?w (src_identifier ?src) = Inr (Some seven_items)"
    by (simp add: demo_world_def)
  have z: "zip [0..<length (take 5 seven_items)] (map item_url (take 5 seven_items))
      = [(0, ''a''), (1, ''b''), (2, ''c''), (3, ''d''), (4, ''e'')]"
    by (simp add: seven_items_def demo_item_def upt_conv_Cons)
  show ?thesis
    using h1 h5 z batch_capped_at_five[OF h1 h2 h3 h4 h5, of new_workflow, THEN conjunct1]
    by simp
qed

subsection \<open>C6: a failing summarizer\<close>

text \<open>
  Claim C6. When the summarizer raises, \<open>processContent\<close> returns the content with its
  scraped title and body (the placeholders of lines 98 and 99 where they are missing or
  empty) and its keywords (the empty list where there are none), having sent one warning;
  the candidate goes on to cover generation with the title that was kept, and when cover,
  renderer and publisher succeed it is published under that title.
\<close>

theorem summarizer_failure_never_blocks:
  assumes "summarize w i c = Inl e"
    and "kept = c\<lparr>sc_title := Some (case sc_title c of None \<Rightarrow> no_title
                                     | Some t \<Rightarrow> if t = [] then no_title else t),
                   sc_content := Some (case sc_content c of None \<Rightarrow> content_failed
                                     | Some b \<Rightarrow> if b = [] then content_failed else b),
                   sc_metadata := (sc_metadata c)
                     \<lparr>md_keywords := Some (case md_keywords (sc_metadata c) of None \<Rightarrow> []
                                           | Some ks \<Rightarrow> ks)\<rparr>\<rparr>"
  shows "processContent w i c s
      = (kept, s\<lparr>trace := trace s @ [Call i (SummarizeCall c),
                                       Notify Warning ContentFailed (KeptOriginal (sc_id c))]\<rparr>)
    \<and> (scrape w i (item_url item) = Inr (c # cs) \<longrightarrow>
         (\<exists>evs. trace (snd (item_try w i item s))
            = trace s @ [Call i (ScrapeCall (item_url item)), Call i (SummarizeCall c),
                         Notify Warning ContentFailed (KeptOriginal (sc_id c)),
                         Call i (GenerateImageCall (sc_title kept))] @ evs))
    \<and> (scrape w i (item_url item) = Inr (c # cs)
         \<and> generateImage w i (sc_title kept) = Inr task
         \<and> waitForCompletion w i task = Inr (Some img) \<and> img \<noteq> []
         \<and> uploadImage w i img = Inr media
         \<and> render w [to_article kept] = Inr tpl
         \<and> publish w i tpl (sc_title kept) (sc_title kept) media = Inr r \<longrightarrow>
         fst (item_try w i item s) = Normal
         \<and> publishResults (snd (item_try w i item s)) = publishResults s @ [r]
         \<and> trace (snd (item_try w i item s))
            = trace s @ [Call i (ScrapeCall (item_url item)), Call i (SummarizeCall c),
                         Notify Warning ContentFailed (KeptOriginal (sc_id c)),
                         Call i (GenerateImageCall (sc_title kept)),
                         Call i (WaitForCompletionCall task), Call i (UploadImageCall img),
                         Call i (RenderCall [to_article kept]),
                         Call i (PublishCall tpl (sc_title kept) (sc_title kept) media)])"
proof -
  have pc: "processContent w i c s
      = (kept, s\<lparr>trace := trace s @ [Call i (SummarizeCall c),
                                       Notify Warning ContentFailed (KeptOriginal (sc_id c))]\<rparr>)" for s
    using assms
    by (simp add: processContent_def js_or_def js_or_list_def state_defs Let_def
        split: option.splits)
  have t: "art_title (to_article kept) = sc_title kept" by (simp add: to_article_def)
  have b: "\<exists>evs. trace (snd (item_try w i item s))
            = trace s @ [Call i (ScrapeCall (item_url item)), Call i (SummarizeCall c),
                         Notify Warning ContentFailed (KeptOriginal (sc_id c)),
                         Call i (GenerateImageCall (sc_title kept))] @ evs"
    if "scrape w i (item_url item) = Inr (c # cs)"
    using that
    by (simp add: item_try_def pc t generateAndUploadCover_def state_defs Let_def
        split: sum.splits option.splits)
  have c: "fst (item_try w i item s) = Normal
         \<and> publishResults (snd (item_try w i item s)) = publishResults s @ [r]
         \<and> trace (snd (item_try w i item s))
            = trace s @ [Call i (ScrapeCall (item_url item)), Call i (SummarizeCall c),
                         Notify Warning ContentFailed (KeptOriginal (sc_id c)),
                         Call i (GenerateImageCall (sc_title kept)),
                         Call i (WaitForCompletionCall task), Call i (UploadImageCall img),
                         Call i (RenderCall [to_article kept]),
                         Call i (PublishCall tpl (sc_title kept) (sc_title kept) media)]"
    if "scrape w i (item_url item) = Inr (c # cs)" "generateImage w i (sc_title kept) = Inr task"
      "waitForCompletion w i task = Inr (Some img)" "img \<noteq> []" "uploadImage w i img = Inr media"
      "render w [to_article kept] = Inr tpl"
      "publish w i tpl (sc_title kept) (sc_title kept) media = Inr r"
    using that
    by (simp add: item_try_def pc t generateAndUploadCover_def state_defs Let_def)
  from pc b c show ?thesis by blast
qed

text \<open>
  Witness for C6: the summarizer raises and the raw content is published.
\<close>

theorem summarizer_failure_never_blocks_witness:
  "summarize summarizer_down 0 demo_content = Inl boom
   \<and> fst (processContent summarizer_down 0 demo_content (begin_loop new_workflow))
       = demo_content\<lparr>sc_metadata := \<lparr>md_keywords = Some [], md_other = []\<rparr>\<rparr>
   \<and> fst (item_try summarizer_down 0 (demo_item ''a'') (begin_loop new_workflow)) = Normal
   \<and> publishResults (snd (item_try summarizer_down 0 (demo_item ''a'') (begin_loop new_workflow)))
       = [\<lparr>status = ''published'', publishId = ''p''\<rparr>]"
proof -
  let ?kept = "demo_content\<lparr>sc_metadata := \<lparr>md_keywords = Some [], md_other = []\<rparr>\<rparr>"
  have h1: "summarize summarizer_down 0 demo_content = Inl boom"
    by (simp add: world_defs demo_defs)
  have h2: "?kept = demo_content\<lparr>sc_title := Some (case sc_title demo_content of None \<Rightarrow> no_title
                                     | Some t \<Rightarrow> if t = [] then no_title else t),
                   sc_content := Some (case sc_content demo_content of None \<Rightarrow> content_failed
                                     | Some b \<Rightarrow> if b = [] then content_failed else b),
                   sc_metadata := (sc_metadata demo_content)
                     \<lparr>md_keywords := Some (case md_keywords (sc_metadata demo_content) of None \<Rightarrow> []
                                           | Some ks \<Rightarrow> ks)\<rparr>\<rparr>"
    by (simp add: demo_defs)
  have h3: "scrape summarizer_down 0 (item_url (demo_item ''a'')) = Inr (demo_content # [])
         \<and> generateImage summarizer_down 0 (sc_title ?kept) = Inr ''task''
         \<and> waitForCompletion summarizer_down 0 ''task'' = Inr (Some ''img'') \<and> ''img'' \<noteq> []
         \<and> uploadImage summarizer_down 0 ''img'' = Inr ''media''
         \<and> render summarizer_down [to_article ?kept] = Inr ''html''
         \<and> publish summarizer_down 0 ''html'' (sc_title ?kept) (sc_title ?kept) ''media''
             = Inr \<lparr>status = ''published'', publishId = ''p''\<rparr>"
    by (simp add: world_defs demo_defs)
  show ?thesis
    using h1 h3 summarizer_failure_never_blocks[OF h1 h2, of "begin_loop new_workflow"
        "demo_item ''a''" "[]" "''task''" "''img''" "''media''" "''html''"
        "\<lparr>status = ''published'', publishId = ''p''\<rparr>"]
    by (simp add: begin_loop_def)
qed

subsection \<open>C7: an empty feed\<close>

text \<open>
  Claim C7, as stated, allows no notification but "the error notification". On an empty
  feed three notifications are sent: the start of the run and two errors, the second one
  from the \<open>catch\<close> of \<open>process\<close>.
\<close>

theorem empty_feed_notifications_counterexample:
  "notes_of (trace (snd (process (demo_world []) new_workflow)))
     = [(Info, WorkflowStart, StartBody),
        (Error, DataSourceError, Message FeedEmpty),
        (Error, WorkflowFailed, Message FeedEmpty)]"
  by (simp add: model_defs demo_defs)

text \<open>
  Claim C7, amended. When the feed answers an empty array, \<open>process\<close> throws the
  "feed empty" error before any collaborator of the loop is called and leaves the counters
  as they were; the notifications of the run are the start notification, the low-balance
  warning when the balance is below one, and the two error notifications of lines 159 and
  296.
\<close>

theorem empty_feed_is_fatal:
  assumes "getCNYBalance w = Inr b" and "getCronSources w = Inr cfg"
    and "cfg_All cfg = Some grp" and "api grp = Some (src # srcs)"
    and "axios_get w (src_identifier src) = Inr (Some [])"
  shows "process w s
      = (Inl FeedEmpty,
         s\<lparr>trace := trace s @ [Notify Info WorkflowStart StartBody]
              @ (if b < 1 then [Notify Warning DeepSeek LowBalance] else [])
              @ [Notify Error DataSourceError (Message FeedEmpty),
                 Notify Error WorkflowFailed (Message FeedEmpty)]\<rparr>)
    \<and> stats (snd (process w s)) = stats s
    \<and> calls_of (events_since s (snd (process w s))) = []"
proof -
  have "process_prepare w s =
      (Inl FeedEmpty, notify Error DataSourceError (Message FeedEmpty)
         (if b < 1 then notify Warning DeepSeek LowBalance (notify Info WorkflowStart StartBody s)
          else notify Info WorkflowStart StartBody s))"
    using process_prepare_feed[OF assms, of s] by (simp add: Let_def)
  then have "process w s
      = (Inl FeedEmpty,
         s\<lparr>trace := trace s @ [Notify Info WorkflowStart StartBody]
              @ (if b < 1 then [Notify Warning DeepSeek LowBalance] else [])
              @ [Notify Error DataSourceError (Message FeedEmpty),
                 Notify Error WorkflowFailed (Message FeedEmpty)]\<rparr>)"
    by (simp add: process_prepare_fails notify_def)
  then show ?thesis
    by (simp add: events_since_def)
qed

text \<open>
  Witness for C7: the empty feed on a new instance.
\<close>

theorem empty_feed_is_fatal_witness:
  "getCNYBalance (demo_world []) = Inr 10
   \<and> axios_get (demo_world []) ''feed'' = Inr (Some [])
   \<and> process (demo_world []) new_workflow
      = (Inl FeedEmpty,
         \<lparr>stats = new_stats,
          trace = [Notify Info WorkflowStart StartBody,
                   Notify Error DataSourceError (Message FeedEmpty),
                   Notify Error WorkflowFailed (Message FeedEmpty)]\<rparr>)"
proof -
  let ?w = "demo_world []"
  let ?cfg = "\<lparr>cfg_All = Some \<lparr>api = Some [\<lparr>src_identifier = ''feed''\<rparr>]\<rparr>\<rparr>"
  let ?grp = "\<lparr>api = Some [\<lparr>src_identifier = ''feed''\<rparr>]\<rparr>"
  let ?src = "\<lparr>src_identifier = ''feed''\<rparr>"
  have h1: "getCNYBalance ?w = Inr 10" by (simp add: demo_world_def)
  have h2: "getCronSources ?w = Inr ?cfg" by (simp add: demo_world_def)
  have h3: "cfg_All ?cfg = Some ?grp" by simp
  have h4: "api ?grp = Some (?src # [])" by simp
  have h5: "axios_get ?w (src_identifier ?src) = Inr (Some [])" by (simp add: demo_world_def)
  show ?thesis
    using h1 h5 empty_feed_is_fatal[OF h1 h2 h3 h4 h5, of new_workflow]
    by (simp add: new_workflow_def)
qed

subsection \<open>C8: the terminal notification\<close>



subsection \<open>C9: order, and the first content only\<close>

text \<open>
  Claim C9. The loop scrapes the candidates in input order, one after the other (the
  candidate positions of the calls in the trace never decrease); the publish results it
  adds are the answers to its successful publish calls in the order of the calls, one per
  fully processed candidate; an iteration whose scrape finds several contents behaves as
  if the scrape had found the first one alone. The publish results of the loop are the
  contributions of the candidates in input order, and a candidate contributes at most one
  entry: exactly the publisher's answer when scrape, cover, renderer and publisher all
  succeed for it, and nothing when its scrape raises or finds nothing or when its cover,
  renderer or publisher fails.
\<close>

theorem candidates_in_order_first_content_only:
  "scrape_urls (calls_of (events_since s (process_items w i items s)))
      = zip [i..<i + length items] (map item_url items)
   \<and> sorted (map fst (calls_of (events_since s (process_items w i items s))))
   \<and> publishResults (process_items w i items s)
      = publishResults s @ published_in w (calls_of (events_since s (process_items w i items s)))
   \<and> length (publishResults (process_items w i items s)) + contents (stats s)
      = length (publishResults s) + contents (stats (process_items w i items s))
   \<and> (\<forall>c cs. scrape w i (item_url item) = Inr (c # cs) \<longrightarrow>
        item_try w i item s
          = item_try (w\<lparr>scrape := \<lambda>j u. if j = i \<and> u = item_url item then Inr [c]
                                        else scrape w j u\<rparr>) i item s)
   \<and> publishResults (process_items w i items s)
      = publishResults s
        @ concat (map (\<lambda>(j, it). publishResults (item_step w j it (begin_loop new_workflow)))
                    (zip [i..<i + length items] items))
   \<and> length (publishResults (item_step w i item (begin_loop new_workflow))) \<le> 1
   \<and> (scrape w i (item_url item) = Inr (c # cs) \<and> content = fst (processContent w i c s)
        \<and> fst (generateAndUploadCover w i (sc_title content) s) = Inr mediaId
        \<and> render w [to_article content] = Inr tpl
        \<and> publish w i tpl (sc_title content) (sc_title content) mediaId = Inr r \<longrightarrow>
        publishResults (item_step w i item s) = publishResults s @ [r])
   \<and> (scrape w i (item_url item) = Inl e \<or> scrape w i (item_url item) = Inr []
        \<or> (scrape w i (item_url item) = Inr (c # cs) \<and> content = fst (processContent w i c s)
            \<and> (fst (generateAndUploadCover w i (sc_title content) s) = Inl e
                \<or> render w [to_article content] = Inl e
                \<or> (fst (generateAndUploadCover w i (sc_title content) s) = Inr mediaId
                    \<and> render w [to_article content] = Inr tpl
                    \<and> publish w i tpl (sc_title content) (sc_title content) mediaId = Inl e))) \<longrightarrow>
        publishResults (item_step w i item s) = publishResults s)"
proof -
  obtain evs where evs: "trace (process_items w i items s) = trace s @ evs"
    "scrape_urls (calls_of evs) = zip [i..<i + length items] (map item_url items)"
    "sorted (map fst (calls_of evs))"
    "publishResults (process_items w i items s) = publishResults s @ published_in w (calls_of evs)"
    using process_items_trace[of w i items s] by blast
  have e: "events_since s (process_items w i items s) = evs"
    using evs(1) by (rule events_since_append)
  have first: "item_try w i item s
          = item_try (w\<lparr>scrape := \<lambda>j u. if j = i \<and> u = item_url item then Inr [c]
                                        else scrape w j u\<rparr>) i item s"
    if "scrape w i (item_url item) = Inr (c # cs)" for c cs
    using that
    by (simp add: item_try_def processContent_def generateAndUploadCover_def Let_def
        split: sum.splits option.splits prod.splits)
  have one: "length (publishResults (item_step w i item (begin_loop new_workflow))) \<le> 1"
    using item_step_published[of w i item "begin_loop new_workflow" s]
    by (simp add: begin_loop_def split: sum.splits list.splits)
  have p1: "scrape w i (item_url item) = Inr (c # cs) \<and> content = fst (processContent w i c s)
        \<and> fst (generateAndUploadCover w i (sc_title content) s) = Inr mediaId
        \<and> render w [to_article content] = Inr tpl
        \<and> publish w i tpl (sc_title content) (sc_title content) mediaId = Inr r \<longrightarrow>
        publishResults (item_step w i item s) = publishResults s @ [r]"
    using item_step_published[of w i item s s] by auto
  have p2: "scrape w i (item_url item) = Inl e \<or> scrape w i (item_url item) = Inr []
        \<or> (scrape w i (item_url item) = Inr (c # cs) \<and> content = fst (processContent w i c s)
            \<and> (fst (generateAndUploadCover w i (sc_title content) s) = Inl e
                \<or> render w [to_article content] = Inl e
                \<or> (fst (generateAndUploadCover w i (sc_title content) s) = Inr mediaId
                    \<and> render w [to_article content] = Inr tpl
                    \<and> publish w i tpl (sc_title content) (sc_title content) mediaId = Inl e))) \<longrightarrow>
        publishResults (item_step w i item s) = publishResults s"
    using item_step_published[of w i item s s] by (auto split: sum.splits)
  have c1: "scrape_urls (calls_of (events_since s (process_items w i items s)))
      = zip [i..<i + length items] (map item_url items)"
    using evs(2) e by simp
  have c2: "sorted (map fst (calls_of (events_since s (process_items w i items s))))"
    using evs(3) e by simp
  have c3: "publishResults (process_items w i items s)
      = publishResults s @ published_in w (calls_of (events_since s (process_items w i items s)))"
    using evs(4) e by simp
  have c4: "length (publishResults (process_items w i items s)) + contents (stats s)
      = length (publishResults s) + contents (stats (process_items w i items s))"
    using process_items_contents[of w i items s] by simp
  have c5: "\<forall>c cs. scrape w i (item_url item) = Inr (c # cs) \<longrightarrow>
        item_try w i item s
          = item_try (w\<lparr>scrape := \<lambda>j u. if j = i \<and> u = item_url item then Inr [c]
                                        else scrape w j u\<rparr>) i item s"
    using first by blast
  note c6 = process_items_published[of w i items s]
  from c1 c2 c3 c4 c5 c6 one p1 p2 show ?thesis
    by (intro conjI) assumption+
qed

text \<open>
  Witness for C9: of two scraped contents the first one is summarized and the candidate
  adds one entry; a candidate whose scrape finds nothing adds none; of two candidates
  the first of which fails, the loop keeps the one entry of the second.
\<close>

theorem candidates_in_order_first_content_only_witness:
  "scrape two_contents 0 (item_url (demo_item ''a'')) = Inr (demo_content # [second_content])
   \<and> calls_of (trace (snd (item_try two_contents 0 (demo_item ''a'') (begin_loop new_workflow))))
     ! 1 = (0, SummarizeCall demo_content)
   \<and> item_try two_contents 0 (demo_item ''a'') (begin_loop new_workflow)
      = item_try (two_contents\<lparr>scrape := \<lambda>j u. if j = 0 \<and> u = item_url (demo_item ''a'')
             then Inr [demo_content] else scrape two_contents j u\<rparr>)
          0 (demo_item ''a'') (begin_loop new_workflow)
   \<and> publish two_contents 0 ''html'' (Some ''New title'') (Some ''New title'') ''media''
      = Inr \<lparr>status = ''published'', publishId = ''p''\<rparr>
   \<and> publishResults (item_step two_contents 0 (demo_item ''a'') (begin_loop new_workflow))
      = [\<lparr>status = ''published'', publishId = ''p''\<rparr>]
   \<and> scrape nothing_scraped 0 (item_url (demo_item ''a'')) = Inr []
   \<and> publishResults (item_step nothing_scraped 0 (demo_item ''a'') (begin_loop new_workflow)) = []
   \<and> publishResults (process_items failing_first 0 [demo_item ''a'', demo_item ''b'']
        (begin_loop new_workflow))
      = [\<lparr>status = ''published'', publishId = ''p''\<rparr>]"
proof -
  let ?s = "begin_loop new_workflow"
  let ?it = "demo_item ''a''"
  let ?R = "\<lparr>status = ''published'', publishId = ''p''\<rparr>"
  let ?c = "fst (processContent two_contents 0 demo_content ?s)"
  have h: "scrape two_contents 0 (item_url ?it) = Inr (demo_content # [second_content])"
    by (simp add: world_defs demo_defs)
  have v: "calls_of (trace (snd (item_try two_contents 0 ?it ?s))) ! 1 = (0, SummarizeCall demo_content)"
    by (simp add: world_defs model_defs demo_defs)
  have t: "sc_title ?c = Some ''New title''"
    by (simp add: two_contents_def demo_defs processContent_def)
  have hp: "scrape two_contents 0 (item_url ?it) = Inr (demo_content # [second_content])
        \<and> ?c = fst (processContent two_contents 0 demo_content ?s)
        \<and> fst (generateAndUploadCover two_contents 0 (sc_title ?c) ?s) = Inr ''media''
        \<and> render two_contents [to_article ?c] = Inr ''html''
        \<and> publish two_contents 0 ''html'' (sc_title ?c) (sc_title ?c) ''media'' = Inr ?R"
    by (simp add: two_contents_def demo_world_def generateAndUploadCover_def)
  have hn: "scrape nothing_scraped 0 (item_url ?it) = Inr []"
    by (simp add: world_defs demo_defs)
  have e0: "publishResults ?s = []" by (simp add: begin_loop_def)
  note T2 = candidates_in_order_first_content_only
      [where w = two_contents and i = 0 and item = ?it and s = ?s and items = "[]"
         and c = demo_content and cs = "[second_content]" and content = ?c
         and mediaId = "''media''" and tpl = "''html''" and r = ?R]
  note T3 = candidates_in_order_first_content_only
      [where w = nothing_scraped and i = 0 and item = ?it and s = ?s and items = "[]"
         and e = boom]
  note T4 = candidates_in_order_first_content_only
      [where w = failing_first and i = 0 and s = ?s and items = "[demo_item ''a'', demo_item ''b'']"]
  from T2 h have a: "item_try two_contents 0 ?it ?s
      = item_try (two_contents\<lparr>scrape := \<lambda>j u. if j = 0 \<and> u = item_url ?it
             then Inr [demo_content] else scrape two_contents j u\<rparr>) 0 ?it ?s"
    by blast
  from T2 hp have b: "publishResults (item_step two_contents 0 ?it ?s) = publishResults ?s @ [?R]"
    by blast
  from T3 hn have c: "publishResults (item_step nothing_scraped 0 ?it ?s) = publishResults ?s"
    by blast
  from T4 have "publishResults (process_items failing_first 0 [demo_item ''a'', demo_item ''b''] ?s)
      = publishResults ?s
        @ concat (map (\<lambda>(j, it). publishResults (item_step failing_first j it (begin_loop new_workflow)))
                    (zip [0..<0 + length [demo_item ''a'', demo_item ''b'']]
                       [demo_item ''a'', demo_item ''b'']))"
    by blast
  moreover have "[0..<0 + length [demo_item ''a'', demo_item ''b'']] = [0, 1]"
    by (simp add: upt_conv_Cons)
  moreover have "publishResults (item_step failing_first 0 (demo_item ''a'') ?s) = []"
    "publishResults (item_step failing_first 1 (demo_item ''b'') ?s) = [?R]"
    by (simp_all add: failing_first_def model_defs demo_defs)
  ultimately have d: "publishResults (process_items failing_first 0 [demo_item ''a'', demo_item ''b''] ?s)
      = [?R]"
    by (simp add: e0)
  from h v a b c d hn hp t e0 show ?thesis by simp
qed

subsection \<open>C10: a scrape that finds nothing\<close>

text \<open>
  Claim C10. When the scrape of a candidate returns the empty list, the iteration adds one
  to the failed counter and to \<open>processedCount\<close>, its only event is the scrape call, no
  notification is sent, and the loop goes on with the next candidate.
\<close>

theorem empty_scrape_fails_silently:
  assumes "scrape w i (item_url item) = Inr []"
  shows "item_step w i item s
      = s\<lparr>stats := (stats s)\<lparr>failed := Suc (failed (stats s))\<rparr>,
          trace := trace s @ [Call i (ScrapeCall (item_url item))],
          processedCount := Suc (processedCount s)\<rparr>
    \<and> notes_of (trace (item_step w i item s)) = notes_of (trace s)
    \<and> process_items w i (item # rest) s = process_items w (Suc i) rest (item_step w i item s)"
  using assms by (simp add: item_step_def item_try_def state_defs Let_def notes_of_append)

text \<open>
  Witness for C10: the scraper finds nothing.
\<close>

theorem empty_scrape_fails_silently_witness:
  "scrape nothing_scraped 0 (item_url (demo_item ''a'')) = Inr []
   \<and> stats (item_step nothing_scraped 0 (demo_item ''a'') (begin_loop new_workflow))
       = \<lparr>success = 0, failed = 1, contents = 0\<rparr>
   \<and> trace (item_step nothing_scraped 0 (demo_item ''a'') (begin_loop new_workflow))
       = [Call 0 (ScrapeCall ''a'')]"
proof -
  have h: "scrape nothing_scraped 0 (item_url (demo_item ''a'')) = Inr []"
    by (simp add: world_defs demo_defs)
  show ?thesis
    using h empty_scrape_fails_silently[OF h, of "begin_loop new_workflow" "[]"]
    by (simp add: begin_loop_def demo_defs)
qed

end
